theory Spec2Isabelle
  imports Complex_Main
begin

section \<open>The Spotify data collection agent (API\_Agent\_2.py)\<close>

text \<open>
  The class \<open>SpotifyAIDataAgent\<close> is embedded as a record of its instance fields, and
  each method as a function that takes the agent and the outside world and returns the
  outcome (a raised exception or the returned value) with the agent and the world as the
  method leaves them. An exception keeps the state reached when it was raised, so the
  model shows what a failed call has already changed.

  Numbers that Python holds as floats (the delay, the clock, \<open>expires_in\<close>) are real
  numbers here; the decay factor \<open>0.9\<close> is the fraction \<open>9/10\<close>.
\<close>

subsection \<open>Values decoded from JSON\<close>

text \<open>
  \<open>JNull\<close> is Python's \<open>None\<close>. An object is the list of the items of the decoded
  dict; a key is looked up with \<open>map_of\<close>.
\<close>

datatype json =
    JNull
  | JBool bool
  | JNum real
  | JStr string
  | JArr "json list"
  | JObj "(string \<times> json) list"

datatype error =
    RequestException
  | HTTPError
  | JSONDecodeError
  | KeyError
  | TypeError
  | AttributeError
  | ValueError
  | IndexError

text \<open>Truth value of an object, as \<open>not x\<close> and \<open>and\<close> test it.\<close>

fun truthy :: "json \<Rightarrow> bool" where
  "truthy JNull = False"
| "truthy (JBool b) = b"
| "truthy (JNum r) = (r \<noteq> 0)"
| "truthy (JStr s) = (s \<noteq> [])"
| "truthy (JArr xs) = (xs \<noteq> [])"
| "truthy (JObj kvs) = (kvs \<noteq> [])"

text \<open>\<open>x.get(k, default)\<close>: only a dict has the method.\<close>

fun py_get :: "json \<Rightarrow> string \<Rightarrow> json \<Rightarrow> error + json" where
  "py_get (JObj kvs) k dflt = Inr (case map_of kvs k of None \<Rightarrow> dflt | Some v \<Rightarrow> v)"
| "py_get _ k dflt = Inl AttributeError"

text \<open>\<open>x[k]\<close> with a string key.\<close>

fun py_item :: "json \<Rightarrow> string \<Rightarrow> error + json" where
  "py_item (JObj kvs) k = (case map_of kvs k of None \<Rightarrow> Inl KeyError | Some v \<Rightarrow> Inr v)"
| "py_item _ k = Inl TypeError"

text \<open>\<open>x[0]\<close>. The keys of a decoded dict are strings, so \<open>0\<close> is never one of them.\<close>

fun py_item0 :: "json \<Rightarrow> error + json" where
  "py_item0 (JArr []) = Inl IndexError"
| "py_item0 (JArr (x # xs)) = Inr x"
| "py_item0 (JStr []) = Inl IndexError"
| "py_item0 (JStr (c # cs)) = Inr (JStr [c])"
| "py_item0 (JObj kvs) = Inl KeyError"
| "py_item0 _ = Inl TypeError"

text \<open>\<open>len(x)\<close>.\<close>

fun py_len :: "json \<Rightarrow> error + nat" where
  "py_len (JArr xs) = Inr (length xs)"
| "py_len (JStr s) = Inr (length s)"
| "py_len (JObj kvs) = Inr (length kvs)"
| "py_len _ = Inl TypeError"

text \<open>\<open>t + x\<close> for a float \<open>t\<close>: a number is added, a bool counts as 0 or 1.\<close>

fun py_add :: "real \<Rightarrow> json \<Rightarrow> error + real" where
  "py_add t (JNum r) = Inr (t + r)"
| "py_add t (JBool b) = Inr (t + (if b then 1 else 0))"
| "py_add t _ = Inl TypeError"

subsection \<open>The agent and the world\<close>

record config =
  client_id_cfg :: "string option"
  client_secret_cfg :: "string option"
  artists_to_search :: "string list"
  min_delay_seconds :: "real option"

record stats =
  total_requests :: nat
  successful_requests :: nat
  failed_requests :: nat
  quality_passed :: nat

record artist_record =
  ar_id :: json
  ar_name :: json
  ar_genres :: json
  ar_spotify_url :: json
  ar_popularity :: json
  ar_followers :: json

record agent =
  config :: config
  token :: json
  token_expiry :: "real option"
  collected_artists :: "artist_record list"
  stats :: stats
  delay :: real
  client_id :: string
  client_secret :: string

text \<open>
  What \<open>requests.post\<close> or \<open>requests.get\<close> gives: the call raises, or there is a
  response with a status code and a body, which \<open>response.json()\<close> decodes or not.
\<close>

datatype http_result = NetErr | Resp nat "json option"

text \<open>
  The world answers the agent: the \<open>k\<close>-th reading of the clock, the \<open>k\<close>-th POST to
  the token endpoint, the \<open>k\<close>-th GET, the \<open>k\<close>-th draw of \<open>random.uniform\<close>. The
  counters say how many of each the agent has made so far, and \<open>sleeps\<close> lists the
  arguments of the calls of \<open>time.sleep\<close> that returned.
\<close>

record world =
  clock :: "nat \<Rightarrow> real"
  n_clock :: nat
  post_token :: "nat \<Rightarrow> http_result"
  n_post :: nat
  http_get :: "nat \<Rightarrow> http_result"
  n_get :: nat
  rand :: "nat \<Rightarrow> real"
  n_rand :: nat
  sleeps :: "real list"

type_synonym 'a res = "(error + 'a) \<times> agent \<times> world"

definition inc_total :: "agent \<Rightarrow> agent" where
  "inc_total a = a\<lparr>stats := (stats a)\<lparr>total_requests := Suc (total_requests (stats a))\<rparr>\<rparr>"

definition inc_successful :: "agent \<Rightarrow> agent" where
  "inc_successful a =
     a\<lparr>stats := (stats a)\<lparr>successful_requests := Suc (successful_requests (stats a))\<rparr>\<rparr>"

definition inc_failed :: "agent \<Rightarrow> agent" where
  "inc_failed a = a\<lparr>stats := (stats a)\<lparr>failed_requests := Suc (failed_requests (stats a))\<rparr>\<rparr>"

definition inc_quality :: "agent \<Rightarrow> agent" where
  "inc_quality a = a\<lparr>stats := (stats a)\<lparr>quality_passed := Suc (quality_passed (stats a))\<rparr>\<rparr>"

text \<open>\<open>response.raise_for_status()\<close> raises for the codes 400 to 599.\<close>

definition raises_for_status :: "nat \<Rightarrow> bool" where
  "raises_for_status status = (400 \<le> status \<and> status < 600)"

text \<open>\<open>time.sleep(d)\<close> raises \<open>ValueError\<close> for a negative \<open>d\<close>.\<close>

definition time_sleep :: "real \<Rightarrow> world \<Rightarrow> error + world" where
  "time_sleep d w = (if d < 0 then Inl ValueError else Inr (w\<lparr>sleeps := sleeps w @ [d]\<rparr>))"

subsection \<open>Construction\<close>

text \<open>\<open>x or y\<close> on an optional string: \<open>None\<close> and the empty string are false.\<close>

fun or_else :: "string option \<Rightarrow> string option \<Rightarrow> string option" where
  "or_else (Some (c # cs)) y = Some (c # cs)"
| "or_else x y = y"

definition default_delay :: "config \<Rightarrow> real" where
  "default_delay cfg = (case min_delay_seconds cfg of None \<Rightarrow> 1 | Some m \<Rightarrow> m)"

text \<open>
  \<open>__init__\<close>, from the loaded configuration and the environment variables:
  \<open>new_agent\<close> is the fields it assigns, \<open>init\<close> adds the check of the credentials.
  Loading the file and setting up the logger are left to the caller.
\<close>

definition new_agent :: "config \<Rightarrow> string \<Rightarrow> string \<Rightarrow> agent" where
  "new_agent cfg cid csecret =
     \<lparr>config = cfg, token = JNull, token_expiry = None, collected_artists = [],
      stats = \<lparr>total_requests = 0, successful_requests = 0, failed_requests = 0,
               quality_passed = 0\<rparr>,
      delay = default_delay cfg, client_id = cid, client_secret = csecret\<rparr>"

definition init :: "config \<Rightarrow> (string \<Rightarrow> string option) \<Rightarrow> error + agent" where
  "init cfg getenv =
     (case (or_else (client_id_cfg cfg) (getenv ''SPOTIFY_CLIENT_ID''),
            or_else (client_secret_cfg cfg) (getenv ''SPOTIFY_CLIENT_SECRET'')) of
        (Some (c # cs), Some (d # ds)) \<Rightarrow> Inr (new_agent cfg (c # cs) (d # ds))
      | _ \<Rightarrow> Inl ValueError)"

subsection \<open>Token manager\<close>

text \<open>
  \<open>get_access_token\<close>. Every exception of the \<open>try\<close> block is logged and raised again.
  The token is stored before \<open>expires_in\<close> is read.
\<close>

definition get_access_token :: "agent \<Rightarrow> world \<Rightarrow> unit res" where
  "get_access_token a w =
     (let w1 = w\<lparr>n_post := Suc (n_post w)\<rparr> in
      case post_token w (n_post w) of
        NetErr \<Rightarrow> (Inl RequestException, a, w1)
      | Resp status body \<Rightarrow>
          if raises_for_status status then (Inl HTTPError, a, w1)
          else (case body of
                  None \<Rightarrow> (Inl JSONDecodeError, a, w1)
                | Some token_data \<Rightarrow>
                    (case py_item token_data ''access_token'' of
                       Inl e \<Rightarrow> (Inl e, a, w1)
                     | Inr tok \<Rightarrow>
                         (let a1 = a\<lparr>token := tok\<rparr>;
                              now = clock w1 (n_clock w1);
                              w2 = w1\<lparr>n_clock := Suc (n_clock w1)\<rparr>
                          in case py_item token_data ''expires_in'' of
                               Inl e \<Rightarrow> (Inl e, a1, w2)
                             | Inr ex \<Rightarrow>
                                 (case py_add now ex of
                                    Inl e \<Rightarrow> (Inl e, a1, w2)
                                  | Inr t \<Rightarrow> (Inr (), a1\<lparr>token_expiry := Some t\<rparr>, w2))))))"

text \<open>
  \<open>ensure_token_valid\<close>. With a token but no expiry, \<open>self.token_expiry - 60\<close> is
  \<open>None - 60\<close>, a \<open>TypeError\<close>, after the clock has been read.
\<close>

definition ensure_token_valid :: "agent \<Rightarrow> world \<Rightarrow> unit res" where
  "ensure_token_valid a w =
     (if token a = JNull then get_access_token a w
      else (let now = clock w (n_clock w);
                w1 = w\<lparr>n_clock := Suc (n_clock w)\<rparr>
            in case token_expiry a of
                 None \<Rightarrow> (Inl TypeError, a, w1)
               | Some e \<Rightarrow>
                   if now > e - 60 then get_access_token a w1 else (Inr (), a, w1)))"

subsection \<open>Rate controller\<close>

definition adapt_delay :: "agent \<Rightarrow> world \<Rightarrow> unit res" where
  "adapt_delay a w =
     (let a1 = a\<lparr>delay := min (delay a * 2) 10\<rparr> in
      case time_sleep (delay a1) w of
        Inl e \<Rightarrow> (Inl e, a1, w)
      | Inr w1 \<Rightarrow> (Inr (), a1, w1))"

text \<open>
  \<open>respectful_delay\<close>. The comparison reads the floor with the default 1.0, the
  assignment reads it with \<open>self.config["collection_settings"]["min_delay_seconds"]\<close>,
  a \<open>KeyError\<close> when the configuration does not give it.
\<close>

definition respectful_delay :: "agent \<Rightarrow> world \<Rightarrow> unit res" where
  "respectful_delay a w =
     (let jitter = rand w (n_rand w);
          w1 = w\<lparr>n_rand := Suc (n_rand w)\<rparr>;
          actual_delay = delay a * jitter
      in case time_sleep actual_delay w1 of
           Inl e \<Rightarrow> (Inl e, a, w1)
         | Inr w2 \<Rightarrow>
             if delay a > default_delay (config a) then
               (case min_delay_seconds (config a) of
                  None \<Rightarrow> (Inl KeyError, a, w2)
                | Some m \<Rightarrow> (Inr (), a\<lparr>delay := max (delay a * (9 / 10)) m\<rparr>, w2))
             else (Inr (), a, w2))"

subsection \<open>Lookups\<close>

text \<open>The \<open>try\<close> block of \<open>search_artist\<close>.\<close>

definition search_artist_try :: "agent \<Rightarrow> world \<Rightarrow> json res" where
  "search_artist_try a w =
     (let w1 = w\<lparr>n_get := Suc (n_get w)\<rparr> in
      case http_get w (n_get w) of
        NetErr \<Rightarrow> (Inl RequestException, a, w1)
      | Resp status body \<Rightarrow>
          (let a1 = inc_total a in
           if raises_for_status status then (Inl HTTPError, a1, w1)
           else (let a2 = inc_successful a1 in
                 case body of
                   None \<Rightarrow> (Inl JSONDecodeError, a2, w1)
                 | Some data \<Rightarrow>
                     (case py_get data ''artists'' (JObj []) of
                        Inl e \<Rightarrow> (Inl e, a2, w1)
                      | Inr artists \<Rightarrow>
                          (case py_get artists ''items'' (JArr []) of
                             Inl e \<Rightarrow> (Inl e, a2, w1)
                           | Inr items \<Rightarrow>
                               if \<not> truthy items then (Inr JNull, inc_failed a2, w1)
                               else (case py_item0 items of
                                       Inl e \<Rightarrow> (Inl e, a2, w1)
                                     | Inr x \<Rightarrow> (Inr x, a2, w1)))))))"

text \<open>The handler \<open>except Exception\<close> of both lookups.\<close>

definition on_lookup_error :: "agent \<Rightarrow> world \<Rightarrow> json res" where
  "on_lookup_error a w =
     (case adapt_delay (inc_failed a) w of
        (Inl e, a1, w1) \<Rightarrow> (Inl e, a1, w1)
      | (Inr u, a1, w1) \<Rightarrow> (Inr JNull, a1, w1))"

definition search_artist :: "string \<Rightarrow> agent \<Rightarrow> world \<Rightarrow> json res" where
  "search_artist artist_name a w =
     (case ensure_token_valid a w of
        (Inl e, a1, w1) \<Rightarrow> (Inl e, a1, w1)
      | (Inr u, a1, w1) \<Rightarrow>
          (case search_artist_try a1 w1 of
             (Inl e, a2, w2) \<Rightarrow> on_lookup_error a2 w2
           | (Inr r, a2, w2) \<Rightarrow> (Inr r, a2, w2)))"

text \<open>The \<open>try\<close> block of \<open>get_artist_details\<close>.\<close>

definition get_artist_details_try :: "agent \<Rightarrow> world \<Rightarrow> json res" where
  "get_artist_details_try a w =
     (let w1 = w\<lparr>n_get := Suc (n_get w)\<rparr> in
      case http_get w (n_get w) of
        NetErr \<Rightarrow> (Inl RequestException, a, w1)
      | Resp status body \<Rightarrow>
          (let a1 = inc_total a in
           if raises_for_status status then (Inl HTTPError, a1, w1)
           else (let a2 = inc_successful a1 in
                 case body of
                   None \<Rightarrow> (Inl JSONDecodeError, a2, w1)
                 | Some data \<Rightarrow> (Inr data, a2, w1))))"

definition get_artist_details :: "json \<Rightarrow> agent \<Rightarrow> world \<Rightarrow> json res" where
  "get_artist_details artist_id a w =
     (case ensure_token_valid a w of
        (Inl e, a1, w1) \<Rightarrow> (Inl e, a1, w1)
      | (Inr u, a1, w1) \<Rightarrow>
          (case get_artist_details_try a1 w1 of
             (Inl e, a2, w2) \<Rightarrow> on_lookup_error a2 w2
           | (Inr r, a2, w2) \<Rightarrow> (Inr r, a2, w2)))"

subsection \<open>Quality gate\<close>

text \<open>
  \<open>bool(d and d.get("name") and d.get("genres") and len(d.get("genres")) > 0)\<close>: the
  chain stops at the first false operand.
\<close>

definition assess_data_quality :: "json \<Rightarrow> error + bool" where
  "assess_data_quality artist_data =
     (if \<not> truthy artist_data then Inr False
      else (case py_get artist_data ''name'' JNull of
              Inl e \<Rightarrow> Inl e
            | Inr nm \<Rightarrow>
                if \<not> truthy nm then Inr False
                else (case py_get artist_data ''genres'' JNull of
                        Inl e \<Rightarrow> Inl e
                      | Inr gs \<Rightarrow>
                          if \<not> truthy gs then Inr False
                          else (case py_len gs of
                                  Inl e \<Rightarrow> Inl e
                                | Inr n \<Rightarrow> Inr (n > 0)))))"

subsection \<open>Orchestrator\<close>

text \<open>The dict that \<open>run\<close> appends, its values evaluated in the order written.\<close>

definition make_record :: "json \<Rightarrow> json \<Rightarrow> error + artist_record" where
  "make_record artist_id artist_details =
     (case py_get artist_details ''name'' JNull of
        Inl e \<Rightarrow> Inl e
      | Inr nm \<Rightarrow>
     (case py_get artist_details ''genres'' JNull of
        Inl e \<Rightarrow> Inl e
      | Inr gs \<Rightarrow>
     (case py_get artist_details ''external_urls'' (JObj []) of
        Inl e \<Rightarrow> Inl e
      | Inr urls \<Rightarrow>
     (case py_get urls ''spotify'' JNull of
        Inl e \<Rightarrow> Inl e
      | Inr url \<Rightarrow>
     (case py_get artist_details ''popularity'' JNull of
        Inl e \<Rightarrow> Inl e
      | Inr pop \<Rightarrow>
     (case py_get artist_details ''followers'' (JObj []) of
        Inl e \<Rightarrow> Inl e
      | Inr fol \<Rightarrow>
     (case py_get fol ''total'' JNull of
        Inl e \<Rightarrow> Inl e
      | Inr tot \<Rightarrow>
          Inr \<lparr>ar_id = artist_id, ar_name = nm, ar_genres = gs, ar_spotify_url = url,
               ar_popularity = pop, ar_followers = tot\<rparr>)))))))"

text \<open>
  How one pass of the loop body of \<open>run\<close> ends: the first \<open>continue\<close>, the second
  \<open>continue\<close>, the record appended, or the record refused by the gate.
\<close>

datatype outcome = SearchSkipped | DetailSkipped | Collected | Rejected

text \<open>The quality check of the loop body and what follows it.\<close>

definition gate_and_pace :: "json \<Rightarrow> json \<Rightarrow> agent \<Rightarrow> world \<Rightarrow> outcome res" where
  "gate_and_pace artist_id artist_details a w =
     (case assess_data_quality artist_details of
        Inl e \<Rightarrow> (Inl e, a, w)
      | Inr ok \<Rightarrow>
          if ok then
            (case make_record artist_id artist_details of
               Inl e \<Rightarrow> (Inl e, a, w)
             | Inr r \<Rightarrow>
                 (case respectful_delay
                         (inc_quality (a\<lparr>collected_artists := collected_artists a @ [r]\<rparr>)) w of
                    (Inl e, a1, w1) \<Rightarrow> (Inl e, a1, w1)
                  | (Inr u, a1, w1) \<Rightarrow> (Inr Collected, a1, w1)))
          else
            (case respectful_delay a w of
               (Inl e, a1, w1) \<Rightarrow> (Inl e, a1, w1)
             | (Inr u, a1, w1) \<Rightarrow> (Inr Rejected, a1, w1)))"

text \<open>The body of the loop of \<open>run\<close>, for one artist name.\<close>

definition run_body :: "string \<Rightarrow> agent \<Rightarrow> world \<Rightarrow> outcome res" where
  "run_body artist_name a w =
     (case search_artist artist_name a w of
        (Inl e, a1, w1) \<Rightarrow> (Inl e, a1, w1)
      | (Inr artist_basic, a1, w1) \<Rightarrow>
          if \<not> truthy artist_basic then (Inr SearchSkipped, a1, w1)
          else (case py_get artist_basic ''id'' JNull of
                  Inl e \<Rightarrow> (Inl e, a1, w1)
                | Inr artist_id \<Rightarrow>
                    (case get_artist_details artist_id a1 w1 of
                       (Inl e, a2, w2) \<Rightarrow> (Inl e, a2, w2)
                     | (Inr artist_details, a2, w2) \<Rightarrow>
                         if \<not> truthy artist_details then (Inr DetailSkipped, a2, w2)
                         else gate_and_pace artist_id artist_details a2 w2)))"

text \<open>
  The loop over the names. An exception of the body ends the loop; otherwise the result
  lists how each pass ended.
\<close>

fun run_loop :: "string list \<Rightarrow> agent \<Rightarrow> world \<Rightarrow> (outcome list) res" where
  "run_loop [] a w = (Inr [], a, w)"
| "run_loop (n # ns) a w =
     (case run_body n a w of
        (Inl e, a1, w1) \<Rightarrow> (Inl e, a1, w1)
      | (Inr oc, a1, w1) \<Rightarrow>
          (case run_loop ns a1 w1 of
             (Inl e, a2, w2) \<Rightarrow> (Inl e, a2, w2)
           | (Inr ocs, a2, w2) \<Rightarrow> (Inr (oc # ocs), a2, w2)))"

text \<open>
  \<open>run\<close>, up to the end of the loop. Writing the data, the report and the metadata
  files comes after it and changes neither the agent nor the counters.
\<close>

definition run :: "agent \<Rightarrow> world \<Rightarrow> (outcome list) res" where
  "run a w = run_loop (artists_to_search (config a)) a w"

subsection \<open>Drivers for the rate controller\<close>

text \<open>\<open>n\<close> calls of \<open>adapt_delay\<close> in a row, stopping at the first that raises.\<close>

fun adapt_delay_times :: "nat \<Rightarrow> agent \<Rightarrow> world \<Rightarrow> unit res" where
  "adapt_delay_times 0 a w = (Inr (), a, w)"
| "adapt_delay_times (Suc n) a w =
     (case adapt_delay a w of
        (Inl e, a1, w1) \<Rightarrow> (Inl e, a1, w1)
      | (Inr u, a1, w1) \<Rightarrow> adapt_delay_times n a1 w1)"

datatype rate_call = Failure | Pace

text \<open>Any interleaving of the two calls, stopping at the first that raises.\<close>

fun rate_calls :: "rate_call list \<Rightarrow> agent \<Rightarrow> world \<Rightarrow> unit res" where
  "rate_calls [] a w = (Inr (), a, w)"
| "rate_calls (c # cs) a w =
     (case (case c of Failure \<Rightarrow> adapt_delay a w | Pace \<Rightarrow> respectful_delay a w) of
        (Inl e, a1, w1) \<Rightarrow> (Inl e, a1, w1)
      | (Inr u, a1, w1) \<Rightarrow> rate_calls cs a1 w1)"

subsection \<open>Well-formed answers\<close>






text \<open>
  A detail answer with a full record: the name is a non-empty string, the genres are a
  non-empty list, and \<open>external_urls\<close> and \<open>followers\<close> are objects where the record
  has them.
\<close>

fun nonempty_string :: "json option \<Rightarrow> bool" where
  "nonempty_string (Some (JStr (c # cs))) = True"
| "nonempty_string _ = False"

fun nonempty_list :: "json option \<Rightarrow> bool" where
  "nonempty_list (Some (JArr (x # xs))) = True"
| "nonempty_list _ = False"




subsection \<open>Sample inputs\<close>

definition sample_config :: "real option \<Rightarrow> string list \<Rightarrow> config" where
  "sample_config m ns =
     \<lparr>client_id_cfg = Some ''id'', client_secret_cfg = Some ''secret'',
      artists_to_search = ns, min_delay_seconds = m\<rparr>"

definition sample_agent :: "real option \<Rightarrow> string list \<Rightarrow> agent" where
  "sample_agent m ns = new_agent (sample_config m ns) ''id'' ''secret''"

text \<open>A world at its start: the clock stands at 0 and every draw of the jitter is 1.\<close>

definition start_world :: "(nat \<Rightarrow> http_result) \<Rightarrow> (nat \<Rightarrow> http_result) \<Rightarrow> world" where
  "start_world posts gets =
     \<lparr>clock = (\<lambda>k. 0), n_clock = 0, post_token = posts, n_post = 0,
      http_get = gets, n_get = 0, rand = (\<lambda>k. 1), n_rand = 0, sleeps = []\<rparr>"

definition token_ok :: http_result where
  "token_ok = Resp 200 (Some (JObj [(''access_token'', JStr ''t''), (''expires_in'', JNum 3600)]))"

text \<open>A token that is within the margin of 60 seconds as soon as it is issued.\<close>

definition token_short :: http_result where
  "token_short = Resp 200 (Some (JObj [(''access_token'', JStr ''t''), (''expires_in'', JNum 30)]))"

definition token_without_expiry :: http_result where
  "token_without_expiry = Resp 200 (Some (JObj [(''access_token'', JStr ''abc'')]))"

definition search_hit :: http_result where
  "search_hit =
     Resp 200 (Some (JObj [(''artists'', JObj [(''items'', JArr [JObj [(''id'', JStr ''a1'')]])])]))"

definition search_empty :: http_result where
  "search_empty = Resp 200 (Some (JObj [(''artists'', JObj [(''items'', JArr [])])]))"

definition details_ok :: http_result where
  "details_ok =
     Resp 200 (Some (JObj [(''name'', JStr ''N''), (''genres'', JArr [JStr ''pop''])]))"

text \<open>A record that passes the gate and whose \<open>external_urls\<close> is null.\<close>

definition details_null_urls :: http_result where
  "details_null_urls =
     Resp 200 (Some (JObj [(''name'', JStr ''N''), (''genres'', JArr [JStr ''pop'']),
                           (''external_urls'', JNull)]))"

text \<open>Every search finds an artist and every detail request returns a full record.\<close>

definition all_good :: "nat \<Rightarrow> http_result" where
  "all_good k = (if even k then search_hit else details_ok)"

section \<open>Properties\<close>

subsection \<open>Unfolding and framing\<close>

lemmas sample_defs = sample_agent_def sample_config_def new_agent_def default_delay_def
  start_world_def token_ok_def token_short_def token_without_expiry_def search_hit_def search_empty_def
  details_ok_def details_null_urls_def all_good_def

lemmas method_defs = get_access_token_def ensure_token_valid_def adapt_delay_def
  respectful_delay_def search_artist_try_def on_lookup_error_def search_artist_def
  get_artist_details_try_def get_artist_details_def assess_data_quality_def make_record_def
  gate_and_pace_def run_body_def run_def raises_for_status_def time_sleep_def
  inc_total_def inc_successful_def inc_failed_def inc_quality_def Let_def

lemma res_eqI: "fst x = r \<Longrightarrow> x = (r, fst (snd x), snd (snd x))"
  by (cases x) auto

lemma init_new_agent: "init cfg getenv = Inr a \<Longrightarrow> \<exists>c s. a = new_agent cfg c s"
  by (auto simp: init_def split: option.splits list.splits)

lemma init_sample: "init (sample_config m ns) (\<lambda>v. None) = Inr (sample_agent m ns)"
  by (simp add: init_def sample_agent_def sample_config_def)


lemma get_access_token_frame:
  "get_access_token a w = (r, a', w') \<Longrightarrow>
     stats a' = stats a \<and> collected_artists a' = collected_artists a \<and> delay a' = delay a \<and>
     config a' = config a \<and> n_rand w' = n_rand w \<and> n_get w' = n_get w \<and>
     n_post w' = Suc (n_post w)"
  by (auto simp: get_access_token_def Let_def
      split: http_result.splits if_splits option.splits sum.splits)

lemma ensure_token_valid_frame:
  "ensure_token_valid a w = (r, a', w') \<Longrightarrow>
     stats a' = stats a \<and> collected_artists a' = collected_artists a \<and> delay a' = delay a \<and>
     config a' = config a \<and> n_rand w' = n_rand w \<and> n_get w' = n_get w"
  by (auto simp: ensure_token_valid_def Let_def dest: get_access_token_frame
      split: if_splits option.splits)

lemma adapt_delay_frame:
  "adapt_delay a w = (r, a', w') \<Longrightarrow>
     stats a' = stats a \<and> collected_artists a' = collected_artists a \<and>
     config a' = config a \<and> n_rand w' = n_rand w \<and> n_get w' = n_get w \<and>
     n_post w' = n_post w \<and> delay a' = min (delay a * 2) 10"
  by (auto simp: adapt_delay_def time_sleep_def Let_def split: if_splits sum.splits)

lemma respectful_delay_frame:
  "respectful_delay a w = (r, a', w') \<Longrightarrow>
     stats a' = stats a \<and> collected_artists a' = collected_artists a \<and>
     config a' = config a \<and> n_rand w' = Suc (n_rand w) \<and> n_get w' = n_get w \<and>
     n_post w' = n_post w"
  by (auto simp: respectful_delay_def time_sleep_def Let_def
      split: if_splits sum.splits option.splits)

lemma on_lookup_error_frame:
  "on_lookup_error a w = (r, a', w') \<Longrightarrow>
     collected_artists a' = collected_artists a \<and>
     quality_passed (stats a') = quality_passed (stats a) \<and>
     config a' = config a \<and> n_rand w' = n_rand w \<and> (\<forall>x. r = Inr x \<longrightarrow> x = JNull)"
  by (auto simp: on_lookup_error_def inc_failed_def dest: adapt_delay_frame
      split: prod.splits sum.splits)

lemma search_artist_try_frame:
  "search_artist_try a w = (r, a', w') \<Longrightarrow>
     collected_artists a' = collected_artists a \<and>
     quality_passed (stats a') = quality_passed (stats a) \<and>
     config a' = config a \<and> n_rand w' = n_rand w \<and> delay a' = delay a"
  by (auto simp: search_artist_try_def Let_def inc_total_def inc_successful_def inc_failed_def
      split: http_result.splits if_splits option.splits sum.splits)

lemma get_artist_details_try_frame:
  "get_artist_details_try a w = (r, a', w') \<Longrightarrow>
     collected_artists a' = collected_artists a \<and>
     quality_passed (stats a') = quality_passed (stats a) \<and>
     config a' = config a \<and> n_rand w' = n_rand w \<and> delay a' = delay a"
  by (auto simp: get_artist_details_try_def Let_def inc_total_def inc_successful_def
      split: http_result.splits if_splits option.splits sum.splits)

lemma search_artist_frame:
  "search_artist n a w = (r, a', w') \<Longrightarrow>
     collected_artists a' = collected_artists a \<and>
     quality_passed (stats a') = quality_passed (stats a) \<and>
     config a' = config a \<and> n_rand w' = n_rand w"
  by (auto simp: search_artist_def
      dest!: ensure_token_valid_frame search_artist_try_frame on_lookup_error_frame
      split: prod.splits sum.splits)

lemma get_artist_details_frame:
  "get_artist_details i a w = (r, a', w') \<Longrightarrow>
     collected_artists a' = collected_artists a \<and>
     quality_passed (stats a') = quality_passed (stats a) \<and>
     config a' = config a \<and> n_rand w' = n_rand w"
  by (auto simp: get_artist_details_def
      dest!: ensure_token_valid_frame get_artist_details_try_frame on_lookup_error_frame
      split: prod.splits sum.splits)


lemma gate_and_pace_effect:
  "gate_and_pace i d a w = (r, a', w') \<Longrightarrow>
     (r = Inr Collected \<longrightarrow>
        assess_data_quality d = Inr True \<and>
        (\<exists>rec. make_record i d = Inr rec \<and> collected_artists a' = collected_artists a @ [rec]) \<and>
        stats a' = (stats a)\<lparr>quality_passed := Suc (quality_passed (stats a))\<rparr> \<and>
        n_rand w' = Suc (n_rand w)) \<and>
     (r = Inr Rejected \<longrightarrow>
        assess_data_quality d = Inr False \<and> collected_artists a' = collected_artists a \<and>
        stats a' = stats a \<and> n_rand w' = Suc (n_rand w)) \<and>
     r \<noteq> Inr SearchSkipped \<and> r \<noteq> Inr DetailSkipped \<and>
     (length (collected_artists a) = quality_passed (stats a) \<longrightarrow>
        length (collected_artists a') = quality_passed (stats a')) \<and>
     config a' = config a \<and> n_rand w' \<le> Suc (n_rand w)"
  by (auto simp: gate_and_pace_def inc_quality_def dest!: respectful_delay_frame
      split: sum.splits if_splits prod.splits)

lemma run_body_invariant:
  assumes "run_body n a w = (r, a', w')"
  shows "(length (collected_artists a) = quality_passed (stats a) \<longrightarrow>
            length (collected_artists a') = quality_passed (stats a')) \<and>
         config a' = config a \<and> n_rand w' \<le> Suc (n_rand w)"
proof -
  obtain r1 a1 w1 where s: "search_artist n a w = (r1, a1, w1)"
    by (cases "search_artist n a w") auto
  note fs = search_artist_frame [OF s]
  show ?thesis
  proof (cases r1)
    case (Inl e)
    with assms s fs show ?thesis by (simp add: run_body_def)
  next
    case b: (Inr b)
    show ?thesis
    proof (cases "truthy b")
      case False
      with assms s fs b show ?thesis by (simp add: run_body_def)
    next
      case True
      show ?thesis
      proof (cases "py_get b ''id'' JNull")
        case (Inl e)
        with assms s fs b True show ?thesis by (simp add: run_body_def)
      next
        case i: (Inr i)
        obtain r2 a2 w2 where d: "get_artist_details i a1 w1 = (r2, a2, w2)"
          by (cases "get_artist_details i a1 w1") auto
        note fd = get_artist_details_frame [OF d]
        show ?thesis
        proof (cases r2)
          case (Inl e)
          with assms s fs b True i d fd show ?thesis by (simp add: run_body_def)
        next
          case dd: (Inr dd)
          show ?thesis
          proof (cases "truthy dd")
            case False
            with assms s fs b True i d fd dd show ?thesis by (simp add: run_body_def)
          next
            case t: True
            with assms s b True i d dd have "gate_and_pace i dd a2 w2 = (r, a', w')"
              by (simp add: run_body_def)
            from gate_and_pace_effect [OF this] fs fd show ?thesis by simp
          qed
        qed
      qed
    qed
  qed
qed





lemma run_body_cases [consumes 1, case_names skip_search skip_detail gate]:
  assumes "run_body n a w = (Inr oc, a', w')"
  obtains
    b where "search_artist n a w = (Inr b, a', w')" and "\<not> truthy b" and "oc = SearchSkipped"
  | b a1 w1 i d where "search_artist n a w = (Inr b, a1, w1)" and "truthy b"
      and "py_get b ''id'' JNull = Inr i" and "get_artist_details i a1 w1 = (Inr d, a', w')"
      and "\<not> truthy d" and "oc = DetailSkipped"
  | b a1 w1 i d a2 w2 where "search_artist n a w = (Inr b, a1, w1)" and "truthy b"
      and "py_get b ''id'' JNull = Inr i" and "get_artist_details i a1 w1 = (Inr d, a2, w2)"
      and "truthy d" and "gate_and_pace i d a2 w2 = (Inr oc, a', w')"
  using assms unfolding run_body_def
  by (auto split: sum.splits if_splits prod.splits)


lemma run_body_outcome:
  assumes "run_body n a w = (Inr oc, a', w')"
  shows "(oc = Collected \<longrightarrow>
            length (collected_artists a') = Suc (length (collected_artists a)) \<and>
            quality_passed (stats a') = Suc (quality_passed (stats a))) \<and>
         (oc \<noteq> Collected \<longrightarrow>
            collected_artists a' = collected_artists a \<and>
            quality_passed (stats a') = quality_passed (stats a)) \<and>
         n_rand w' = (if oc = Collected \<or> oc = Rejected then Suc (n_rand w) else n_rand w)"
  using assms
proof (cases rule: run_body_cases)
  case (skip_search b)
  from search_artist_frame [OF skip_search(1)] skip_search(3) show ?thesis by simp
next
  case (skip_detail b a1 w1 i d)
  from search_artist_frame [OF skip_detail(1)] get_artist_details_frame [OF skip_detail(4)]
    skip_detail(6)
  show ?thesis by simp
next
  case (gate b a1 w1 i d a2 w2)
  from search_artist_frame [OF gate(1)] get_artist_details_frame [OF gate(4)]
    gate_and_pace_effect [OF gate(6)]
  show ?thesis by (cases oc) auto
qed


subsection \<open>Rate controller\<close>

lemma double_capped:
  assumes "0 \<le> d"
  shows "min (min (d * 2) 10 * 2 ^ N) (10::real) = min (d * 2 ^ Suc N) 10"
proof -
  have p: "(1::real) \<le> 2 ^ N" by simp
  have x: "d * 1 \<le> d * 2 ^ N" using p assms by (rule mult_left_mono)
  have e: "d * 2 ^ Suc N = 2 * (d * 2 ^ N)" by simp
  show ?thesis
  proof (cases "d * 2 \<le> 10")
    case True
    then have "min (d * 2) 10 = d * 2" by (simp only: min_absorb1)
    then show ?thesis by (simp add: mult.assoc)
  next
    case False
    then have m: "min (d * 2) 10 = 10" by (simp only: min_def if_False)
    have a: "min (10 * 2 ^ N) (10::real) = 10" by (rule min_absorb2) simp
    from False x e have "10 < d * 2 ^ Suc N" by linarith
    then have b: "min (d * 2 ^ Suc N) 10 = 10" by (intro min_absorb2 less_imp_le)
    show ?thesis by (simp only: m a b)
  qed
qed

lemma adapt_delay_nonneg:
  assumes "0 \<le> delay a"
  shows "adapt_delay a w =
    (Inr (), a\<lparr>delay := min (delay a * 2) 10\<rparr>,
     w\<lparr>sleeps := sleeps w @ [min (delay a * 2) 10]\<rparr>)"
proof -
  from assms have "\<not> min (delay a * 2) 10 < 0" by simp
  then show ?thesis by (simp add: adapt_delay_def time_sleep_def Let_def)
qed

lemma adapt_delay_times_delay:
  "0 \<le> delay a \<Longrightarrow> delay a \<le> 10 \<Longrightarrow> adapt_delay_times N a w = (r, a', w') \<Longrightarrow>
     r = Inr () \<and> delay a' = min (delay a * 2 ^ N) 10"
proof (induction N arbitrary: a w)
  case 0
  then show ?case by simp
next
  case (Suc N)
  let ?a1 = "a\<lparr>delay := min (delay a * 2) 10\<rparr>"
  let ?w1 = "w\<lparr>sleeps := sleeps w @ [min (delay a * 2) 10]\<rparr>"
  from Suc.prems(1) have "0 \<le> delay ?a1" "delay ?a1 \<le> 10" by simp_all
  moreover from Suc.prems(3) adapt_delay_nonneg [OF Suc.prems(1), of w]
  have "adapt_delay_times N ?a1 ?w1 = (r, a', w')" by simp
  ultimately have "r = Inr () \<and> delay a' = min (delay ?a1 * 2 ^ N) 10"
    by (rule Suc.IH)
  with double_capped [OF Suc.prems(1), of N] show ?case by simp
qed

text \<open>
  C4 (amended). From a delay that stands at the floor, with the floor between 0 and the
  ceiling of 10 seconds, \<open>N\<close> calls of \<open>adapt_delay\<close> in a row all return and leave the
  delay at \<open>min (floor * 2 ^ N) 10\<close>; the delay after \<open>N\<close> calls is at most the delay after
  \<open>N + 1\<close>. Doubling a binary float and taking a minimum are exact, so the real numbers
  follow the floats here.
\<close>

theorem adapt_delay_times_capped_doubling:
  assumes "delay a = default_delay (config a)"
    and "0 \<le> default_delay (config a)"
    and "default_delay (config a) \<le> 10"
  shows "fst (adapt_delay_times N a w) = Inr () \<and>
         delay (fst (snd (adapt_delay_times N a w))) = min (default_delay (config a) * 2 ^ N) 10 \<and>
         delay (fst (snd (adapt_delay_times N a w)))
           \<le> delay (fst (snd (adapt_delay_times (Suc N) a w)))"
proof -
  let ?f = "default_delay (config a)"
  have a: "0 \<le> delay a" "delay a \<le> 10" using assms by simp_all
  have n: "fst (adapt_delay_times N a w) = Inr () \<and>
           delay (fst (snd (adapt_delay_times N a w))) = min (?f * 2 ^ N) 10"
    using adapt_delay_times_delay [OF a res_eqI [OF refl], of N w] assms(1) by simp
  have s: "delay (fst (snd (adapt_delay_times (Suc N) a w))) = min (?f * 2 ^ Suc N) 10"
    using adapt_delay_times_delay [OF a res_eqI [OF refl], of "Suc N" w] assms(1) by simp
  have "?f * 2 ^ N \<le> ?f * 2 ^ Suc N"
    using assms(2) by (simp add: mult_left_mono)
  with n s show ?thesis by (simp add: min_le_iff_disj)
qed

text \<open>C4, at a floor of 1 second: 8 seconds after three failures, 10 after four.\<close>

theorem adapt_delay_times_capped_doubling_witness:
  "fst (adapt_delay_times 3 (sample_agent (Some 1) []) (start_world (\<lambda>k. NetErr) (\<lambda>k. NetErr)))
     = Inr () \<and>
   delay (fst (snd (adapt_delay_times 3 (sample_agent (Some 1) [])
     (start_world (\<lambda>k. NetErr) (\<lambda>k. NetErr))))) = 8 \<and>
   delay (fst (snd (adapt_delay_times 4 (sample_agent (Some 1) [])
     (start_world (\<lambda>k. NetErr) (\<lambda>k. NetErr))))) = 10"
  using adapt_delay_times_capped_doubling [of "sample_agent (Some 1) []" 3
      "start_world (\<lambda>k. NetErr) (\<lambda>k. NetErr)"]
    adapt_delay_times_capped_doubling [of "sample_agent (Some 1) []" 4
      "start_world (\<lambda>k. NetErr) (\<lambda>k. NetErr)"]
  by (simp add: sample_agent_def sample_config_def new_agent_def default_delay_def)

text \<open>
  C4 as stated fails for a floor above the ceiling. With \<open>min_delay_seconds\<close> = 20 the
  delay before any failure is 20, not \<open>min (20 * 2 ^ 0) 10\<close> = 10, and the first failure
  lowers it to 10. A floor below 0 is doubled downwards: from -1 the first call leaves -2
  (and then raises, as the sleep refuses a negative time).
\<close>

theorem adapt_delay_floor_above_ceiling:
  "delay (sample_agent (Some 20) []) = default_delay (config (sample_agent (Some 20) [])) \<and>
   delay (fst (snd (adapt_delay_times 0 (sample_agent (Some 20) [])
     (start_world (\<lambda>k. NetErr) (\<lambda>k. NetErr)))))
     \<noteq> min (default_delay (config (sample_agent (Some 20) [])) * 2 ^ 0) 10 \<and>
   delay (fst (snd (adapt_delay_times 1 (sample_agent (Some 20) [])
     (start_world (\<lambda>k. NetErr) (\<lambda>k. NetErr)))))
     < delay (fst (snd (adapt_delay_times 0 (sample_agent (Some 20) [])
     (start_world (\<lambda>k. NetErr) (\<lambda>k. NetErr))))) \<and>
   delay (fst (snd (adapt_delay_times 1 (sample_agent (Some (- 1)) [])
     (start_world (\<lambda>k. NetErr) (\<lambda>k. NetErr)))))
     < delay (fst (snd (adapt_delay_times 0 (sample_agent (Some (- 1)) [])
     (start_world (\<lambda>k. NetErr) (\<lambda>k. NetErr)))))"
  by (simp add: sample_defs method_defs)

lemma rate_calls_range:
  "f \<le> delay a \<Longrightarrow> delay a \<le> 10 \<Longrightarrow> 0 \<le> f \<Longrightarrow> f = default_delay (config a) \<Longrightarrow>
   rate_calls cs a w = (r, a', w') \<Longrightarrow> f \<le> delay a' \<and> delay a' \<le> 10"
proof (induction cs arbitrary: a w)
  case Nil
  then show ?case by simp
next
  case (Cons c cs)
  obtain r1 a1 w1 where step:
    "(case c of Failure \<Rightarrow> adapt_delay a w | Pace \<Rightarrow> respectful_delay a w) = (r1, a1, w1)"
    by (cases "case c of Failure \<Rightarrow> adapt_delay a w | Pace \<Rightarrow> respectful_delay a w") auto
  have keep: "f \<le> delay a1 \<and> delay a1 \<le> 10 \<and> config a1 = config a"
    using step Cons.prems(1-4)
    by (cases c)
      (auto simp: adapt_delay_def respectful_delay_def time_sleep_def Let_def default_delay_def
        split: if_splits sum.splits option.splits)
  show ?case
  proof (cases r1)
    case (Inl e)
    with step Cons.prems(5) have "a' = a1" by simp
    with keep show ?thesis by simp
  next
    case (Inr u)
    with step Cons.prems(5) have "rate_calls cs a1 w1 = (r, a', w')" by simp
    with keep Cons.prems(3,4) Cons.IH [of a1 w1] show ?thesis by simp
  qed
qed

text \<open>
  C5 (amended). With the floor between 0 and the ceiling of 10 seconds, and the delay
  starting at the floor, the delay stays between the floor and 10 after every sequence of
  calls of \<open>adapt_delay\<close> and \<open>respectful_delay\<close>, also when the last of them raised.
\<close>

theorem rate_calls_delay_in_range:
  assumes "delay a = default_delay (config a)"
    and "0 \<le> default_delay (config a)"
    and "default_delay (config a) \<le> 10"
    and "rate_calls cs a w = (r, a', w')"
  shows "default_delay (config a) \<le> delay a' \<and> delay a' \<le> 10"
  using rate_calls_range [OF _ _ assms(2) refl assms(4)] assms(1,3) by simp

text \<open>C5, at a floor of 1 second and six calls.\<close>

theorem rate_calls_delay_in_range_witness:
  "1 \<le> delay (fst (snd (rate_calls [Failure, Failure, Pace, Failure, Pace, Pace]
      (sample_agent (Some 1) []) (start_world (\<lambda>k. NetErr) (\<lambda>k. NetErr))))) \<and>
   delay (fst (snd (rate_calls [Failure, Failure, Pace, Failure, Pace, Pace]
      (sample_agent (Some 1) []) (start_world (\<lambda>k. NetErr) (\<lambda>k. NetErr))))) \<le> 10"
  using rate_calls_delay_in_range [OF _ _ _ res_eqI [OF refl],
      of "sample_agent (Some 1) []" "[Failure, Failure, Pace, Failure, Pace, Pace]"
      "start_world (\<lambda>k. NetErr) (\<lambda>k. NetErr)"]
  by (simp add: sample_agent_def sample_config_def new_agent_def default_delay_def)

text \<open>
  C5 as stated fails for a floor above the ceiling. With \<open>min_delay_seconds\<close> = 20 the
  delay starts at 20, above the ceiling, and one failure puts it at 10, below the floor.
  With a floor of -1 one failure puts the delay at -2, below the floor as well.
\<close>

theorem rate_calls_floor_above_ceiling:
  "delay (sample_agent (Some 20) []) = default_delay (config (sample_agent (Some 20) [])) \<and>
   \<not> delay (sample_agent (Some 20) []) \<le> 10 \<and>
   delay (fst (snd (rate_calls [Failure] (sample_agent (Some 20) [])
      (start_world (\<lambda>k. NetErr) (\<lambda>k. NetErr)))))
     < default_delay (config (sample_agent (Some 20) [])) \<and>
   delay (fst (snd (rate_calls [Failure] (sample_agent (Some (- 1)) [])
      (start_world (\<lambda>k. NetErr) (\<lambda>k. NetErr)))))
     < default_delay (config (sample_agent (Some (- 1)) []))"
  by (simp add: sample_defs method_defs)

subsection \<open>Token manager\<close>

lemma get_access_token_failure:
  "get_access_token a w = (Inl e, a', w') \<Longrightarrow>
     token_expiry a' = token_expiry a \<and> (token a' = token a \<longrightarrow> a' = a)"
  by (auto simp: get_access_token_def Let_def
      split: http_result.splits if_splits option.splits sum.splits)

text \<open>
  C2. Where the refresh fails before the body gives an \<open>access_token\<close> (the request
  raises, the status is an error, the body does not decode or has no such key), the agent
  is left as it was. A body that has \<open>access_token\<close> but no \<open>expires_in\<close> is another
  matter: the new token is stored, then \<open>KeyError\<close> is raised, and the agent is left with
  the new token and the old expiry (none, for a new agent).
\<close>

theorem get_access_token_partial_update:
  "get_access_token (sample_agent (Some 1) [])
     (start_world (\<lambda>k. token_without_expiry) (\<lambda>k. NetErr)) =
   (Inl KeyError,
    (sample_agent (Some 1) [])\<lparr>token := JStr ''abc''\<rparr>,
    (start_world (\<lambda>k. token_without_expiry) (\<lambda>k. NetErr))\<lparr>n_post := 1, n_clock := 1\<rparr>) \<and>
   token (sample_agent (Some 1) []) = JNull"
  by (simp add: sample_defs method_defs)

text \<open>
  C8. \<open>ensure_token_valid\<close> without a token is \<open>get_access_token\<close>. With a token that
  expires at \<open>e\<close> it reads the clock, and is \<open>get_access_token\<close> when the time read is
  above \<open>e - 60\<close>; otherwise it returns with the agent as it was and no request made. A
  refresh makes one POST, so the count of POSTs tells the two apart. Called again on a
  token that is still valid, it makes no request.
\<close>

theorem ensure_token_valid_refreshes_iff_stale:
  assumes "ensure_token_valid a w = (r, a', w')"
  shows "(token a = JNull \<longrightarrow>
            (r, a', w') = get_access_token a w \<and> n_post w' = Suc (n_post w)) \<and>
         (\<forall>e. token a \<noteq> JNull \<and> token_expiry a = Some e \<longrightarrow>
            (if clock w (n_clock w) > e - 60
             then (r, a', w') = get_access_token a (w\<lparr>n_clock := Suc (n_clock w)\<rparr>) \<and>
                  n_post w' = Suc (n_post w)
             else r = Inr () \<and> a' = a \<and> n_post w' = n_post w \<and> n_get w' = n_get w)) \<and>
         (\<forall>e r2 a2 w2.
            token a' \<noteq> JNull \<and> token_expiry a' = Some e \<and>
            \<not> clock w' (n_clock w') > e - 60 \<and>
            ensure_token_valid a' w' = (r2, a2, w2) \<longrightarrow>
            r2 = Inr () \<and> a2 = a' \<and> n_post w2 = n_post w' \<and> n_get w2 = n_get w')"
proof (intro conjI allI impI)
  assume "token a = JNull"
  with assms show "(r, a', w') = get_access_token a w"
    by (simp add: ensure_token_valid_def)
  with get_access_token_frame [of a w r a' w'] show "n_post w' = Suc (n_post w)" by simp
next
  fix e
  assume t: "token a \<noteq> JNull \<and> token_expiry a = Some e"
  show "if clock w (n_clock w) > e - 60
        then (r, a', w') = get_access_token a (w\<lparr>n_clock := Suc (n_clock w)\<rparr>) \<and>
             n_post w' = Suc (n_post w)
        else r = Inr () \<and> a' = a \<and> n_post w' = n_post w \<and> n_get w' = n_get w"
  proof (cases "clock w (n_clock w) > e - 60")
    case True
    with t assms have g: "(r, a', w') = get_access_token a (w\<lparr>n_clock := Suc (n_clock w)\<rparr>)"
      by (simp add: ensure_token_valid_def Let_def)
    with get_access_token_frame [of a "w\<lparr>n_clock := Suc (n_clock w)\<rparr>" r a' w'] True
    show ?thesis by simp
  next
    case False
    with t assms show ?thesis by (auto simp: ensure_token_valid_def Let_def)
  qed
next
  fix e r2 a2 w2
  assume "token a' \<noteq> JNull \<and> token_expiry a' = Some e \<and>
          \<not> clock w' (n_clock w') > e - 60 \<and> ensure_token_valid a' w' = (r2, a2, w2)"
  then show "r2 = Inr ()" "a2 = a'" "n_post w2 = n_post w'" "n_get w2 = n_get w'"
    by (auto simp: ensure_token_valid_def Let_def)
qed

text \<open>
  C8, on a new agent: the first call makes the one POST, the second call makes none and
  no GET either. With a token that is stale at once, the second call makes a second POST.
\<close>

theorem ensure_token_valid_refreshes_iff_stale_witness:
  "n_post (snd (snd (ensure_token_valid (sample_agent (Some 1) [])
      (start_world (\<lambda>k. token_ok) (\<lambda>k. NetErr))))) = 1 \<and>
   (case ensure_token_valid (sample_agent (Some 1) [])
      (start_world (\<lambda>k. token_ok) (\<lambda>k. NetErr)) of
      (r, a', w') \<Rightarrow>
        (case ensure_token_valid a' w' of
           (r2, a2, w2) \<Rightarrow> r2 = Inr () \<and> a2 = a' \<and> n_post w2 = 1 \<and> n_get w2 = 0)) \<and>
   n_post (snd (snd (ensure_token_valid
      ((sample_agent (Some 1) [])\<lparr>token := JStr ''t'', token_expiry := Some 30\<rparr>)
      ((start_world (\<lambda>k. token_short) (\<lambda>k. NetErr))\<lparr>n_post := 1, n_clock := 1\<rparr>)))) = 2"
proof -
  let ?a = "sample_agent (Some 1) []"
  let ?w = "start_world (\<lambda>k. token_ok) (\<lambda>k. NetErr)"
  obtain r a' w' where e: "ensure_token_valid ?a ?w = (r, a', w')"
    by (cases "ensure_token_valid ?a ?w") auto
  obtain r2 a2 w2 where e2: "ensure_token_valid a' w' = (r2, a2, w2)"
    by (cases "ensure_token_valid a' w'") auto
  have v: "(r, a', w') =
      (Inr (), ?a\<lparr>token := JStr ''t'', token_expiry := Some 3600\<rparr>,
       ?w\<lparr>n_post := 1, n_clock := 1\<rparr>)"
    using e by (simp add: sample_defs method_defs)
  have t: "token ?a = JNull" by (simp add: sample_defs)
  from v have s: "token a' \<noteq> JNull \<and> token_expiry a' = Some 3600 \<and>
      \<not> clock w' (n_clock w') > 3600 - 60 \<and> ensure_token_valid a' w' = (r2, a2, w2)"
    using e2 by (auto simp: sample_defs)
  from ensure_token_valid_refreshes_iff_stale [OF e] t
  have p1: "n_post w' = Suc (n_post ?w)" by blast
  from ensure_token_valid_refreshes_iff_stale [OF e] s
  have p2: "r2 = Inr () \<and> a2 = a' \<and> n_post w2 = n_post w' \<and> n_get w2 = n_get w'" by blast
  have z: "n_post ?w = 0" by (simp add: start_world_def)
  from v have g: "n_get w' = 0" by (simp add: start_world_def)
  from p1 p2 z g have first:
    "n_post w' = 1 \<and> r2 = Inr () \<and> a2 = a' \<and> n_post w2 = 1 \<and> n_get w2 = 0"
    by simp
  let ?b = "?a\<lparr>token := JStr ''t'', token_expiry := Some 30\<rparr>"
  let ?u = "(start_world (\<lambda>k. token_short) (\<lambda>k. NetErr))\<lparr>n_post := 1, n_clock := 1\<rparr>"
  have tb: "token ?b \<noteq> JNull \<and> token_expiry ?b = Some 30" by simp
  have cb: "clock ?u (n_clock ?u) > 30 - 60" by (simp add: start_world_def)
  from ensure_token_valid_refreshes_iff_stale [OF res_eqI [OF refl, of "ensure_token_valid ?b ?u"]]
    tb cb
  have "n_post (snd (snd (ensure_token_valid ?b ?u))) = Suc (n_post ?u)"
    by (metis (no_types, lifting))
  then have second: "n_post (snd (snd (ensure_token_valid ?b ?u))) = 2" by simp
  from first second e e2 show ?thesis by simp
qed

subsection \<open>Runs on well-formed answers\<close>

lemma get_access_token_feeds:
  "get_access_token a w = (r, a', w') \<Longrightarrow>
     post_token w' = post_token w \<and> http_get w' = http_get w \<and> rand w' = rand w \<and>
     sleeps w' = sleeps w"
  by (auto simp: get_access_token_def Let_def
      split: http_result.splits if_splits option.splits sum.splits)

lemma ensure_token_valid_feeds:
  "ensure_token_valid a w = (r, a', w') \<Longrightarrow>
     post_token w' = post_token w \<and> http_get w' = http_get w \<and> rand w' = rand w \<and>
     sleeps w' = sleeps w"
  by (auto simp: ensure_token_valid_def Let_def dest: get_access_token_feeds
      split: if_splits option.splits)

lemma search_artist_try_feeds:
  "search_artist_try a w = (r, a', w') \<Longrightarrow>
     post_token w' = post_token w \<and> http_get w' = http_get w \<and> rand w' = rand w \<and>
     sleeps w' = sleeps w \<and> n_get w' = Suc (n_get w) \<and> token a' = token a \<and>
     token_expiry a' = token_expiry a"
  by (auto simp: search_artist_try_def Let_def inc_total_def inc_successful_def inc_failed_def
      split: http_result.splits if_splits option.splits sum.splits)

lemma get_artist_details_try_feeds:
  "get_artist_details_try a w = (r, a', w') \<Longrightarrow>
     post_token w' = post_token w \<and> http_get w' = http_get w \<and> rand w' = rand w \<and>
     sleeps w' = sleeps w \<and> n_get w' = Suc (n_get w) \<and> token a' = token a \<and>
     token_expiry a' = token_expiry a"
  by (auto simp: get_artist_details_try_def Let_def inc_total_def inc_successful_def
      split: http_result.splits if_splits option.splits sum.splits)





lemma assess_data_quality_object:
  assumes "nonempty_string (map_of d ''name'')" and "nonempty_list (map_of d ''genres'')"
  shows "assess_data_quality (JObj d) = Inr True"
proof -
  from assms(1) obtain c cs where n: "map_of d ''name'' = Some (JStr (c # cs))"
    by (auto elim: nonempty_string.elims)
  from assms(2) obtain g gs where g: "map_of d ''genres'' = Some (JArr (g # gs))"
    by (auto elim: nonempty_list.elims)
  from n have "d \<noteq> []" by auto
  with n g show ?thesis by (simp add: assess_data_quality_def)
qed



subsection \<open>Lookups and statistics\<close>

text \<open>
  C1. A search that is answered with status 200 and an empty list of items counts the
  request as made and as successful, and then as failed as well: after it the total is 1
  and the successful and failed counts add up to 2.
\<close>

theorem search_artist_empty_result_counts:
  "fst (search_artist ''x'' (sample_agent (Some 1) [''x''])
          (start_world (\<lambda>k. token_ok) (\<lambda>k. search_empty))) = Inr JNull \<and>
   stats (fst (snd (search_artist ''x'' (sample_agent (Some 1) [''x''])
          (start_world (\<lambda>k. token_ok) (\<lambda>k. search_empty))))) =
     \<lparr>total_requests = 1, successful_requests = 1, failed_requests = 1, quality_passed = 0\<rparr>"
  by (simp add: sample_defs method_defs)

text \<open>
  A search whose request raises is counted as failed and not counted in the total: the
  total is 0 and the failed count is 1.
\<close>

lemma search_artist_network_error_counts:
  "stats (fst (snd (search_artist ''x'' (sample_agent (Some 1) [''x''])
          (start_world (\<lambda>k. token_ok) (\<lambda>k. NetErr))))) =
     \<lparr>total_requests = 0, successful_requests = 0, failed_requests = 1, quality_passed = 0\<rparr>"
  by (simp add: sample_defs method_defs)

subsection \<open>Quality gate\<close>

text \<open>
  What the gate decides on a record that is a JSON object: it refuses a record whose
  name is missing, null or the empty string, and a record whose genres are missing, null
  or the empty list; it accepts a record with a non-empty string as name and a non-empty
  list as genres, whatever else the record holds.
\<close>

lemma assess_data_quality_refuses_name:
  assumes "map_of kvs ''name'' = None \<or> map_of kvs ''name'' = Some JNull \<or>
           map_of kvs ''name'' = Some (JStr [])"
  shows "assess_data_quality (JObj kvs) = Inr False"
  using assms by (auto simp: assess_data_quality_def)

lemma assess_data_quality_refuses_genres:
  assumes "map_of kvs ''genres'' = None \<or> map_of kvs ''genres'' = Some JNull \<or>
           map_of kvs ''genres'' = Some (JArr [])"
  shows "assess_data_quality (JObj kvs) = Inr False"
  using assms by (auto simp: assess_data_quality_def split: sum.splits)

lemma assess_data_quality_accepts:
  assumes "map_of kvs ''name'' = Some (JStr (c # cs))"
    and "map_of kvs ''genres'' = Some (JArr (g # gs))"
  shows "assess_data_quality (JObj kvs) = Inr True"
  using assms by (intro assess_data_quality_object) simp_all

text \<open>
  At the gate of the loop: a refused record is never appended, and an accepted record is
  appended when the record to store can be built from it.
\<close>

lemma gate_and_pace_admits:
  assumes "gate_and_pace i d a w = (r, a', w')"
  shows "(assess_data_quality d = Inr False \<longrightarrow> collected_artists a' = collected_artists a) \<and>
         (assess_data_quality d = Inr True \<longrightarrow>
            (case make_record i d of
               Inl e \<Rightarrow> r = Inl e \<and> collected_artists a' = collected_artists a
             | Inr x \<Rightarrow> collected_artists a' = collected_artists a @ [x]))"
  using assms
  by (auto simp: gate_and_pace_def inc_quality_def dest!: respectful_delay_frame
      split: sum.splits if_splits prod.splits)


subsection \<open>Pacing\<close>

lemma search_artist_quiet:
  assumes "search_artist n a w = (Inr b, a', w')" and "truthy b"
  shows "delay a' = delay a \<and> sleeps w' = sleeps w \<and> rand w' = rand w \<and>
         n_rand w' = n_rand w"
proof -
  obtain r0 a0 w0 where e: "ensure_token_valid a w = (r0, a0, w0)"
    by (cases "ensure_token_valid a w") auto
  obtain r1 a1 w1 where t: "search_artist_try a0 w0 = (r1, a1, w1)"
    by (cases "search_artist_try a0 w0") auto
  from assms(1) e obtain u where r0: "r0 = Inr u"
    by (cases r0) (simp_all add: search_artist_def)
  show ?thesis
  proof (cases r1)
    case (Inl x)
    with assms(1) e t r0 have "on_lookup_error a1 w1 = (Inr b, a', w')"
      by (simp add: search_artist_def)
    from on_lookup_error_frame [OF this] assms(2) show ?thesis by simp
  next
    case (Inr x)
    with assms(1) e t r0 have "search_artist_try a0 w0 = (Inr b, a', w')"
      by (simp add: search_artist_def)
    from search_artist_try_frame [OF this] search_artist_try_feeds [OF this]
      ensure_token_valid_frame [OF e] ensure_token_valid_feeds [OF e]
    show ?thesis by simp
  qed
qed

lemma get_artist_details_quiet:
  assumes "get_artist_details i a w = (Inr b, a', w')" and "truthy b"
  shows "delay a' = delay a \<and> sleeps w' = sleeps w \<and> rand w' = rand w \<and>
         n_rand w' = n_rand w"
proof -
  obtain r0 a0 w0 where e: "ensure_token_valid a w = (r0, a0, w0)"
    by (cases "ensure_token_valid a w") auto
  obtain r1 a1 w1 where t: "get_artist_details_try a0 w0 = (r1, a1, w1)"
    by (cases "get_artist_details_try a0 w0") auto
  from assms(1) e obtain u where r0: "r0 = Inr u"
    by (cases r0) (simp_all add: get_artist_details_def)
  show ?thesis
  proof (cases r1)
    case (Inl x)
    with assms(1) e t r0 have "on_lookup_error a1 w1 = (Inr b, a', w')"
      by (simp add: get_artist_details_def)
    from on_lookup_error_frame [OF this] assms(2) show ?thesis by simp
  next
    case (Inr x)
    with assms(1) e t r0 have "get_artist_details_try a0 w0 = (Inr b, a', w')"
      by (simp add: get_artist_details_def)
    from get_artist_details_try_frame [OF this] get_artist_details_try_feeds [OF this]
      ensure_token_valid_frame [OF e] ensure_token_valid_feeds [OF e]
    show ?thesis by simp
  qed
qed

lemma respectful_delay_returns:
  "respectful_delay a w = (Inr u, a', w') \<Longrightarrow>
     sleeps w' = sleeps w @ [delay a * rand w (n_rand w)] \<and> n_rand w' = Suc (n_rand w)"
  by (auto simp: respectful_delay_def time_sleep_def Let_def
      split: if_splits sum.splits option.splits)

lemma gate_and_pace_sleeps:
  "gate_and_pace i d a w = (Inr oc, a', w') \<Longrightarrow>
     sleeps w' = sleeps w @ [delay a * rand w (n_rand w)] \<and> n_rand w' = Suc (n_rand w)"
  by (auto simp: gate_and_pace_def inc_quality_def dest!: respectful_delay_returns
      split: sum.splits if_splits prod.splits)

lemma on_lookup_error_nonneg:
  assumes "0 \<le> delay a"
  shows "on_lookup_error a w =
    (Inr JNull, (inc_failed a)\<lparr>delay := min (delay a * 2) 10\<rparr>,
     w\<lparr>sleeps := sleeps w @ [min (delay a * 2) 10]\<rparr>)"
proof -
  from assms have "0 \<le> delay (inc_failed a)" by (simp add: inc_failed_def)
  from adapt_delay_nonneg [OF this, of w] show ?thesis
    by (simp add: on_lookup_error_def inc_failed_def)
qed

text \<open>
  C3 (amended). A pass of the loop body that reaches the quality gate and returns,
  with the record collected or refused, has called \<open>respectful_delay\<close> exactly once
  (the draws of \<open>random.uniform\<close> count the calls: \<open>respectful_delay\<close> makes one and
  nothing else draws), and its sleep of \<open>delay * jitter\<close> is the only sleep of the pass.
  A pass whose search request, or whose detail request, raises inside its \<open>try\<close> block
  while the delay is not negative goes on to the next name through \<open>continue\<close>: it has
  not called \<open>respectful_delay\<close>, and its only sleep is the one of \<open>adapt_delay\<close>, of
  the doubled delay capped at 10.
\<close>

theorem run_body_pacing:
  "(run_body n a w = (Inr oc, a', w') \<and> (oc = Collected \<or> oc = Rejected) \<longrightarrow>
      n_rand w' = Suc (n_rand w) \<and> sleeps w' = sleeps w @ [delay a * rand w (n_rand w)]) \<and>
   (ensure_token_valid a w = (Inr u, a0, w0) \<and> search_artist_try a0 w0 = (Inl e, a1, w1) \<and>
    0 \<le> delay a \<longrightarrow>
      run_body n a w =
        (Inr SearchSkipped, (inc_failed a1)\<lparr>delay := min (delay a * 2) 10\<rparr>,
         w1\<lparr>sleeps := sleeps w @ [min (delay a * 2) 10]\<rparr>) \<and>
      n_rand w1 = n_rand w) \<and>
   (search_artist n a w = (Inr b, a2, w2) \<and> truthy b \<and> py_get b ''id'' JNull = Inr i \<and>
    ensure_token_valid a2 w2 = (Inr u', a3, w3) \<and>
    get_artist_details_try a3 w3 = (Inl e', a4, w4) \<and> 0 \<le> delay a \<longrightarrow>
      run_body n a w =
        (Inr DetailSkipped, (inc_failed a4)\<lparr>delay := min (delay a * 2) 10\<rparr>,
         w4\<lparr>sleeps := sleeps w @ [min (delay a * 2) 10]\<rparr>) \<and>
      n_rand w4 = n_rand w)"
proof (intro conjI impI)
  assume h: "run_body n a w = (Inr oc, a', w') \<and> (oc = Collected \<or> oc = Rejected)"
  then have rb: "run_body n a w = (Inr oc, a', w')" and oc: "oc = Collected \<or> oc = Rejected"
    by simp_all
  from rb have "n_rand w' = Suc (n_rand w) \<and> sleeps w' = sleeps w @ [delay a * rand w (n_rand w)]"
  proof (cases rule: run_body_cases)
    case (skip_search b)
    with oc show ?thesis by simp
  next
    case (skip_detail b a1 w1 i d)
    with oc show ?thesis by simp
  next
    case (gate b a1 w1 i d a2 w2)
    from search_artist_quiet [OF gate(1,2)] get_artist_details_quiet [OF gate(4,5)]
      gate_and_pace_sleeps [OF gate(6)]
    show ?thesis by simp
  qed
  then show "n_rand w' = Suc (n_rand w)"
    and "sleeps w' = sleeps w @ [delay a * rand w (n_rand w)]" by simp_all
next
  assume h: "ensure_token_valid a w = (Inr u, a0, w0) \<and>
      search_artist_try a0 w0 = (Inl e, a1, w1) \<and> 0 \<le> delay a"
  then have e: "ensure_token_valid a w = (Inr u, a0, w0)"
    and t: "search_artist_try a0 w0 = (Inl e, a1, w1)" and z: "0 \<le> delay a" by simp_all
  note f = ensure_token_valid_frame [OF e] ensure_token_valid_feeds [OF e]
    search_artist_try_frame [OF t] search_artist_try_feeds [OF t]
  from f z have z1: "0 \<le> delay a1" by simp
  from e t on_lookup_error_nonneg [OF z1, of w1] f
  have "search_artist n a w =
      (Inr JNull, (inc_failed a1)\<lparr>delay := min (delay a * 2) 10\<rparr>,
       w1\<lparr>sleeps := sleeps w @ [min (delay a * 2) 10]\<rparr>)"
    by (simp add: search_artist_def)
  then show "run_body n a w =
      (Inr SearchSkipped, (inc_failed a1)\<lparr>delay := min (delay a * 2) 10\<rparr>,
       w1\<lparr>sleeps := sleeps w @ [min (delay a * 2) 10]\<rparr>)"
    by (simp add: run_body_def)
  from f show "n_rand w1 = n_rand w" by simp
next
  assume h: "search_artist n a w = (Inr b, a2, w2) \<and> truthy b \<and>
      py_get b ''id'' JNull = Inr i \<and> ensure_token_valid a2 w2 = (Inr u', a3, w3) \<and>
      get_artist_details_try a3 w3 = (Inl e', a4, w4) \<and> 0 \<le> delay a"
  then have s: "search_artist n a w = (Inr b, a2, w2)" and b: "truthy b"
    and i: "py_get b ''id'' JNull = Inr i"
    and e: "ensure_token_valid a2 w2 = (Inr u', a3, w3)"
    and t: "get_artist_details_try a3 w3 = (Inl e', a4, w4)" and z: "0 \<le> delay a"
    by simp_all
  note f = search_artist_quiet [OF s b]
    ensure_token_valid_frame [OF e] ensure_token_valid_feeds [OF e]
    get_artist_details_try_frame [OF t] get_artist_details_try_feeds [OF t]
  from f z have z1: "0 \<le> delay a4" by simp
  from e t on_lookup_error_nonneg [OF z1, of w4] f
  have "get_artist_details i a2 w2 =
      (Inr JNull, (inc_failed a4)\<lparr>delay := min (delay a * 2) 10\<rparr>,
       w4\<lparr>sleeps := sleeps w @ [min (delay a * 2) 10]\<rparr>)"
    by (simp add: get_artist_details_def)
  with s b i show "run_body n a w =
      (Inr DetailSkipped, (inc_failed a4)\<lparr>delay := min (delay a * 2) 10\<rparr>,
       w4\<lparr>sleeps := sleeps w @ [min (delay a * 2) 10]\<rparr>)"
    by (simp add: run_body_def)
  from f show "n_rand w4 = n_rand w" by simp
qed

text \<open>
  C3, on one artist that is found and collected (one call, one sleep of 1 second), on
  one artist whose search request raises and on one whose detail request raises (no
  call, one sleep of 2 seconds).
\<close>

theorem run_body_pacing_witness:
  "n_rand (snd (snd (run_body ''x'' (sample_agent (Some 1) [''x''])
     (start_world (\<lambda>k. token_ok) all_good)))) = 1 \<and>
   sleeps (snd (snd (run_body ''x'' (sample_agent (Some 1) [''x''])
     (start_world (\<lambda>k. token_ok) all_good)))) = [1] \<and>
   fst (run_body ''x'' (sample_agent (Some 1) [''x''])
     (start_world (\<lambda>k. token_ok) (\<lambda>k. NetErr))) = Inr SearchSkipped \<and>
   n_rand (snd (snd (run_body ''x'' (sample_agent (Some 1) [''x''])
     (start_world (\<lambda>k. token_ok) (\<lambda>k. NetErr))))) = 0 \<and>
   sleeps (snd (snd (run_body ''x'' (sample_agent (Some 1) [''x''])
     (start_world (\<lambda>k. token_ok) (\<lambda>k. NetErr))))) = [2] \<and>
   fst (run_body ''x'' (sample_agent (Some 1) [''x''])
     (start_world (\<lambda>k. token_ok) (\<lambda>k. if k = 0 then search_hit else NetErr)))
     = Inr DetailSkipped \<and>
   n_rand (snd (snd (run_body ''x'' (sample_agent (Some 1) [''x''])
     (start_world (\<lambda>k. token_ok) (\<lambda>k. if k = 0 then search_hit else NetErr))))) = 0 \<and>
   sleeps (snd (snd (run_body ''x'' (sample_agent (Some 1) [''x''])
     (start_world (\<lambda>k. token_ok) (\<lambda>k. if k = 0 then search_hit else NetErr))))) = [2]"
proof -
  let ?a = "sample_agent (Some 1) [''x'']"
  let ?w = "start_world (\<lambda>k. token_ok) all_good"
  let ?v = "start_world (\<lambda>k. token_ok) (\<lambda>k. NetErr)"
  let ?b = "run_body ''x'' ?a ?w"
  have c: "fst ?b = Inr Collected" by (simp add: sample_defs method_defs)
  have "run_body ''x'' ?a ?w = (Inr Collected, fst (snd ?b), snd (snd ?b)) \<and>
      (Collected = Collected \<or> Collected = Rejected)"
    using res_eqI [OF c] by simp
  with run_body_pacing [of "''x''" ?a ?w Collected "fst (snd ?b)" "snd (snd ?b)"]
  have "n_rand (snd (snd ?b)) = Suc (n_rand ?w) \<and>
      sleeps (snd (snd ?b)) = sleeps ?w @ [delay ?a * rand ?w (n_rand ?w)]"
    by blast
  then have 1: "n_rand (snd (snd ?b)) = 1 \<and> sleeps (snd (snd ?b)) = [1]"
    by (simp add: sample_defs)
  let ?p = "?a\<lparr>token := JStr ''t'', token_expiry := Some 3600\<rparr>"
  let ?q = "?v\<lparr>n_post := 1, n_clock := 1\<rparr>"
  let ?s = "?v\<lparr>n_post := 1, n_clock := 1, n_get := 1\<rparr>"
  have "ensure_token_valid ?a ?v = (Inr (), ?p, ?q)"
    by (simp add: sample_defs method_defs)
  moreover have "search_artist_try ?p ?q = (Inl RequestException, ?p, ?s)"
    by (simp add: sample_defs method_defs)
  moreover have "0 \<le> delay ?a" by (simp add: sample_defs)
  ultimately have "ensure_token_valid ?a ?v = (Inr (), ?p, ?q) \<and>
      search_artist_try ?p ?q = (Inl RequestException, ?p, ?s) \<and> 0 \<le> delay ?a"
    by (intro conjI)
  with run_body_pacing [of "''x''" ?a ?v _ _ _ "()" ?p ?q RequestException ?p ?s]
  have "run_body ''x'' ?a ?v =
        (Inr SearchSkipped, (inc_failed ?p)\<lparr>delay := min (delay ?a * 2) 10\<rparr>,
         ?s\<lparr>sleeps := sleeps ?v @ [min (delay ?a * 2) 10]\<rparr>)"
    by blast
  then have 2: "fst (run_body ''x'' ?a ?v) = Inr SearchSkipped \<and>
      n_rand (snd (snd (run_body ''x'' ?a ?v))) = 0 \<and>
      sleeps (snd (snd (run_body ''x'' ?a ?v))) = [2]"
    by (simp add: sample_defs)
  let ?u = "start_world (\<lambda>k. token_ok) (\<lambda>k. if k = 0 then search_hit else NetErr)"
  let ?c = "inc_successful (inc_total ?p)"
  let ?x = "?u\<lparr>n_post := 1, n_clock := 1, n_get := 1\<rparr>"
  let ?y = "?u\<lparr>n_post := 1, n_clock := 2, n_get := 1\<rparr>"
  let ?z = "?u\<lparr>n_post := 1, n_clock := 2, n_get := 2\<rparr>"
  have "search_artist ''x'' ?a ?u = (Inr (JObj [(''id'', JStr ''a1'')]), ?c, ?x)"
    by (simp add: sample_defs method_defs)
  moreover have "truthy (JObj [(''id'', JStr ''a1'')])" by simp
  moreover have "py_get (JObj [(''id'', JStr ''a1'')]) ''id'' JNull = Inr (JStr ''a1'')" by simp
  moreover have "ensure_token_valid ?c ?x = (Inr (), ?c, ?y)"
    by (simp add: sample_defs method_defs)
  moreover have "get_artist_details_try ?c ?y = (Inl RequestException, ?c, ?z)"
    by (simp add: sample_defs method_defs)
  moreover have "0 \<le> delay ?a" by (simp add: sample_defs)
  ultimately have "search_artist ''x'' ?a ?u = (Inr (JObj [(''id'', JStr ''a1'')]), ?c, ?x) \<and>
      truthy (JObj [(''id'', JStr ''a1'')]) \<and>
      py_get (JObj [(''id'', JStr ''a1'')]) ''id'' JNull = Inr (JStr ''a1'') \<and>
      ensure_token_valid ?c ?x = (Inr (), ?c, ?y) \<and>
      get_artist_details_try ?c ?y = (Inl RequestException, ?c, ?z) \<and> 0 \<le> delay ?a"
    by (intro conjI)
  with run_body_pacing [of "''x''" ?a ?u _ _ _ _ _ _ _ _ _ "JObj [(''id'', JStr ''a1'')]" ?c ?x
      "JStr ''a1''" "()" ?c ?y RequestException ?c ?z]
  have "run_body ''x'' ?a ?u =
        (Inr DetailSkipped, (inc_failed ?c)\<lparr>delay := min (delay ?a * 2) 10\<rparr>,
         ?z\<lparr>sleeps := sleeps ?u @ [min (delay ?a * 2) 10]\<rparr>)"
    by blast
  then have 3: "fst (run_body ''x'' ?a ?u) = Inr DetailSkipped \<and>
      n_rand (snd (snd (run_body ''x'' ?a ?u))) = 0 \<and>
      sleeps (snd (snd (run_body ''x'' ?a ?u))) = [2]"
    by (simp add: sample_defs)
  from 1 2 3 show ?thesis by simp
qed

text \<open>
  C3 as stated fails on a failed request. Of two artists, the search for the first raises
  and the second is collected: the loop went through both and \<open>respectful_delay\<close> was
  called once, not twice. The pause after the failed search is the one \<open>adapt_delay\<close>
  takes, 2 seconds.
\<close>

theorem run_skips_pacing_after_failed_search:
  "fst (run (sample_agent (Some 1) [''x'', ''y''])
          (start_world (\<lambda>k. token_ok) (\<lambda>k. if k = 0 then NetErr else all_good (Suc k))))
     = Inr [SearchSkipped, Collected] \<and>
   n_rand (snd (snd (run (sample_agent (Some 1) [''x'', ''y''])
          (start_world (\<lambda>k. token_ok) (\<lambda>k. if k = 0 then NetErr else all_good (Suc k))))))
     = 1 \<and>
   sleeps (snd (snd (run (sample_agent (Some 1) [''x'', ''y''])
          (start_world (\<lambda>k. token_ok) (\<lambda>k. if k = 0 then NetErr else all_good (Suc k))))))
     = [2, 2]"
  by (simp add: sample_defs method_defs)

subsection \<open>Orchestrator\<close>

lemma run_loop_invariant:
  "run_loop ns a w = (r, a', w') \<Longrightarrow>
     length (collected_artists a) = quality_passed (stats a) \<Longrightarrow>
     length (collected_artists a') = quality_passed (stats a')"
proof (induction ns arbitrary: a w r a' w')
  case Nil
  then show ?case by simp
next
  case (Cons n ns)
  obtain r1 a1 w1 where b: "run_body n a w = (r1, a1, w1)"
    by (cases "run_body n a w") auto
  from run_body_invariant [OF b] Cons.prems(2)
  have i1: "length (collected_artists a1) = quality_passed (stats a1)" by simp
  show ?case
  proof (cases r1)
    case (Inl e)
    with b Cons.prems(1) i1 show ?thesis by simp
  next
    case (Inr oc)
    obtain r2 a2 w2 where l: "run_loop ns a1 w1 = (r2, a2, w2)"
      by (cases "run_loop ns a1 w1") auto
    from Cons.IH [OF l i1] have "length (collected_artists a2) = quality_passed (stats a2)" .
    with b Inr l Cons.prems(1) show ?thesis by (cases r2) auto
  qed
qed

lemma run_loop_append:
  "run_loop ms a0 w0 = (Inr ocs, a, w) \<Longrightarrow>
     run_loop (ms @ ns) a0 w0 =
       (case run_loop ns a w of
          (Inl e, a', w') \<Rightarrow> (Inl e, a', w')
        | (Inr ocs', a', w') \<Rightarrow> (Inr (ocs @ ocs'), a', w'))"
proof (induction ms arbitrary: a0 w0 ocs)
  case Nil
  then show ?case by (auto split: prod.splits sum.splits)
next
  case (Cons m ms)
  from Cons.prems obtain oc a1 w1 ocs1 where
    b: "run_body m a0 w0 = (Inr oc, a1, w1)" and
    l: "run_loop ms a1 w1 = (Inr ocs1, a, w)" and
    o: "ocs = oc # ocs1"
    by (auto split: prod.splits sum.splits)
  from Cons.IH [OF l] b o show ?case
    by (auto split: prod.splits sum.splits)
qed

text \<open>
  C6 (amended). A failed token refresh is not absorbed. When the loop has come to an
  artist and \<open>ensure_token_valid\<close> raises, before the search or, after a search that
  found the artist, before the detail request, \<open>run\<close> ends there with that exception:
  the agent and the world are as the failed refresh left them and no later artist is
  looked up.
\<close>

theorem run_loop_stops_at_failed_refresh:
  assumes "run_loop ms a0 w0 = (Inr ocs, a, w)"
    and "ensure_token_valid a w = (Inl e, a', w') \<or>
         (\<exists>b a1 w1 i. search_artist n a w = (Inr b, a1, w1) \<and> truthy b \<and>
            py_get b ''id'' JNull = Inr i \<and> ensure_token_valid a1 w1 = (Inl e, a', w'))"
  shows "run_loop (ms @ n # ns) a0 w0 = (Inl e, a', w')"
proof -
  from assms(2) have "run_body n a w = (Inl e, a', w')"
  proof
    assume "ensure_token_valid a w = (Inl e, a', w')"
    then show ?thesis by (simp add: run_body_def search_artist_def)
  next
    assume "\<exists>b a1 w1 i. search_artist n a w = (Inr b, a1, w1) \<and> truthy b \<and>
            py_get b ''id'' JNull = Inr i \<and> ensure_token_valid a1 w1 = (Inl e, a', w')"
    then show ?thesis by (auto simp: run_body_def get_artist_details_def)
  qed
  then have "run_loop (n # ns) a w = (Inl e, a', w')" by simp
  with run_loop_append [OF assms(1), of "n # ns"] show ?thesis by simp
qed

text \<open>
  C6, on three artists. Where the token endpoint cannot be reached, the run ends at the
  first artist with the exception of the request. Where the first token is issued but is
  stale at once and the second request for a token fails, the run ends at the first
  artist after its search, before the detail request.
\<close>

theorem run_loop_stops_at_failed_refresh_witness:
  "run_loop ([] @ ''x'' # [''y'', ''z'']) (sample_agent (Some 1) [])
     (start_world (\<lambda>k. NetErr) all_good) =
   (Inl RequestException, sample_agent (Some 1) [],
    (start_world (\<lambda>k. NetErr) all_good)\<lparr>n_post := 1\<rparr>) \<and>
   fst (run_loop ([] @ ''x'' # [''y'', ''z'']) (sample_agent (Some 1) [])
     (start_world (\<lambda>k. if k = 0 then token_short else NetErr) all_good)) =
   Inl RequestException \<and>
   n_get (snd (snd (run_loop ([] @ ''x'' # [''y'', ''z'']) (sample_agent (Some 1) [])
     (start_world (\<lambda>k. if k = 0 then token_short else NetErr) all_good)))) = 1"
proof -
  let ?a = "sample_agent (Some 1) []"
  let ?w = "start_world (\<lambda>k. NetErr) all_good"
  let ?v = "start_world (\<lambda>k. if k = 0 then token_short else NetErr) all_good"
  have l: "run_loop [] ?a ?w = (Inr [], ?a, ?w)" by simp
  have f: "ensure_token_valid ?a ?w = (Inl RequestException, ?a, ?w\<lparr>n_post := 1\<rparr>)"
    by (simp add: sample_defs method_defs)
  note 1 = run_loop_stops_at_failed_refresh [OF l disjI1 [OF f], of "''x''" "[''y'', ''z'']"]
  let ?a1 = "inc_successful (inc_total (?a\<lparr>token := JStr ''t'', token_expiry := Some 30\<rparr>))"
  let ?v1 = "?v\<lparr>n_post := 1, n_clock := 1, n_get := 1\<rparr>"
  let ?v2 = "?v\<lparr>n_post := 2, n_clock := 2, n_get := 1\<rparr>"
  have m: "run_loop [] ?a ?v = (Inr [], ?a, ?v)" by simp
  have s: "search_artist ''x'' ?a ?v = (Inr (JObj [(''id'', JStr ''a1'')]), ?a1, ?v1)"
    by (simp add: sample_defs method_defs)
  have g: "ensure_token_valid ?a1 ?v1 = (Inl RequestException, ?a1, ?v2)"
    by (simp add: sample_defs method_defs)
  have "\<exists>b a1 w1 i. search_artist ''x'' ?a ?v = (Inr b, a1, w1) \<and> truthy b \<and>
            py_get b ''id'' JNull = Inr i \<and>
            ensure_token_valid a1 w1 = (Inl RequestException, ?a1, ?v2)"
    using s g by (intro exI [of _ "JObj [(''id'', JStr ''a1'')]"] exI [of _ ?a1]
        exI [of _ ?v1] exI [of _ "JStr ''a1''"]) simp
  note 2 = run_loop_stops_at_failed_refresh [OF m disjI2 [OF this], of "[''y'', ''z'']"]
  have "n_get ?v2 = 1" by simp
  with 1 2 show ?thesis by simp
qed

text \<open>
  C6 as stated fails. With three artists to look up and a token endpoint that cannot be
  reached, \<open>run\<close> ends with the exception of the refresh, having made one POST, no GET
  and no entry in the statistics.
\<close>

theorem run_raises_on_failed_refresh:
  "fst (run (sample_agent (Some 1) [''x'', ''y'', ''z'']) (start_world (\<lambda>k. NetErr) all_good))
     = Inl RequestException \<and>
   n_post (snd (snd (run (sample_agent (Some 1) [''x'', ''y'', ''z''])
     (start_world (\<lambda>k. NetErr) all_good)))) = 1 \<and>
   n_get (snd (snd (run (sample_agent (Some 1) [''x'', ''y'', ''z''])
     (start_world (\<lambda>k. NetErr) all_good)))) = 0"
  by (simp add: sample_defs method_defs)

text \<open>
  C10. From a new agent, wherever the loop of \<open>run\<close> has come to, and also when it has
  ended with an exception, the number of collected records is \<open>quality_passed\<close>. From
  there, a pass of the loop that collects a record adds one record and adds one to
  \<open>quality_passed\<close>, and a pass that ends otherwise without an exception changes
  neither; the two lookups on their own change neither.
\<close>

theorem collected_count_is_quality_passed:
  assumes "init cfg getenv = Inr a0"
    and "run_loop ns a0 w0 = (r, a, w)"
  shows "length (collected_artists a) = quality_passed (stats a) \<and>
         (\<forall>n oc a' w'. run_body n a w = (Inr oc, a', w') \<longrightarrow>
            (if oc = Collected
             then length (collected_artists a') = Suc (length (collected_artists a)) \<and>
                  quality_passed (stats a') = Suc (quality_passed (stats a))
             else collected_artists a' = collected_artists a \<and>
                  quality_passed (stats a') = quality_passed (stats a))) \<and>
         (\<forall>n r' a' w'. search_artist n a w = (r', a', w') \<longrightarrow>
            collected_artists a' = collected_artists a \<and>
            quality_passed (stats a') = quality_passed (stats a)) \<and>
         (\<forall>i r' a' w'. get_artist_details i a w = (r', a', w') \<longrightarrow>
            collected_artists a' = collected_artists a \<and>
            quality_passed (stats a') = quality_passed (stats a))"
proof (intro conjI allI impI)
  from init_new_agent [OF assms(1)] obtain c s where "a0 = new_agent cfg c s" by blast
  then have "length (collected_artists a0) = quality_passed (stats a0)"
    by (simp add: new_agent_def)
  with run_loop_invariant [OF assms(2)]
  show "length (collected_artists a) = quality_passed (stats a)" by simp
next
  fix n oc a' w'
  assume "run_body n a w = (Inr oc, a', w')"
  from run_body_outcome [OF this]
  show "if oc = Collected
        then length (collected_artists a') = Suc (length (collected_artists a)) \<and>
             quality_passed (stats a') = Suc (quality_passed (stats a))
        else collected_artists a' = collected_artists a \<and>
             quality_passed (stats a') = quality_passed (stats a)"
    by simp
next
  fix n r' a' w'
  assume "search_artist n a w = (r', a', w')"
  from search_artist_frame [OF this]
  show "collected_artists a' = collected_artists a"
    and "quality_passed (stats a') = quality_passed (stats a)" by simp_all
next
  fix i r' a' w'
  assume "get_artist_details i a w = (r', a', w')"
  from get_artist_details_frame [OF this]
  show "collected_artists a' = collected_artists a"
    and "quality_passed (stats a') = quality_passed (stats a)" by simp_all
qed

text \<open>
  C10, on a run of three artists of which the second is not found: two records, and
  \<open>quality_passed\<close> is 2.
\<close>

theorem collected_count_is_quality_passed_witness:
  "length (collected_artists (fst (snd (run_loop [''x'', ''y'', ''z'']
      (sample_agent (Some 1) [])
      (start_world (\<lambda>k. token_ok)
         (\<lambda>k. if k < 2 then all_good k else if k = 2 then search_empty else all_good (Suc k)))))))
   = quality_passed (stats (fst (snd (run_loop [''x'', ''y'', ''z'']
      (sample_agent (Some 1) [])
      (start_world (\<lambda>k. token_ok)
         (\<lambda>k. if k < 2 then all_good k else if k = 2 then search_empty else all_good (Suc k)))))))
   \<and> quality_passed (stats (fst (snd (run_loop [''x'', ''y'', ''z'']
      (sample_agent (Some 1) [])
      (start_world (\<lambda>k. token_ok)
         (\<lambda>k. if k < 2 then all_good k else if k = 2 then search_empty else all_good (Suc k)))))))
   = 2"
proof -
  let ?r = "run_loop [''x'', ''y'', ''z''] (sample_agent (Some 1) [])
      (start_world (\<lambda>k. token_ok)
         (\<lambda>k. if k < 2 then all_good k else if k = 2 then search_empty else all_good (Suc k)))"
  have q: "quality_passed (stats (fst (snd ?r))) = 2"
    by (simp add: sample_defs method_defs)
  from collected_count_is_quality_passed [OF init_sample res_eqI [OF refl, of ?r]]
  have h: "length (collected_artists (fst (snd ?r))) = quality_passed (stats (fst (snd ?r)))"
    by (rule conjunct1)
  from h q show ?thesis by (rule conjI)
qed








end
